theory Spec2Isabelle
  imports Main "HOL-Library.Word" "HOL-Library.List_Lexorder" "HOL-Library.AList"
begin

section \<open>The sql-chain coordinator of \<^verbatim>\<open>sqlchain/chain.go\<close>\<close>

text \<open>
  A shallow embedding of the chain coordinator: the chain state and its fixed-width
  encoding, the runtime clock, the block index, the persisted store, block admission
  (\<^verbatim>\<open>PushBlock\<close>, \<^verbatim>\<open>AdviseNewBlock\<close>), start-up (\<^verbatim>\<open>NewChain\<close>, \<^verbatim>\<open>LoadChain\<close>) and the
  producing loop. Mutation of the receiver is explicit state passing; a Go \<^verbatim>\<open>error\<close> is a
  value of the datatype \<open>error\<close>; a Go panic is the outcome \<open>Panic\<close>. What the
  environment decides (the wall clock, what \<^verbatim>\<open>bolt.Open\<close> returns, whether a transaction can
  begin and commit) is an argument of the operation that asks for it. Calls are sequential:
  the lock of the runtime is not modelled, and no two operations interleave.
\<close>

subsection \<open>Bytes, hashes, time\<close>

type_synonym byte = "8 word"
type_synonym bytes = "byte list"

text \<open>
  Modelled from the spec: the type \<^verbatim>\<open>hash.Hash\<close> of package \<^verbatim>\<open>crypto/hash\<close> is not among
  the sources. The spec has it as a fixed-size, 32-byte identifier with exact byte equality;
  the source converts it with \<^verbatim>\<open>[32]byte(block.BlockHash)\<close>.
\<close>

typedef hash = "{bs :: byte list. length bs = 32}"
  by (rule exI [of _ "replicate 32 0"]) simp

text \<open>The bytes of a hash, and the hash holding the first 32 of some bytes (zero padded).\<close>

definition hashBytes :: "hash \<Rightarrow> bytes" where
  "hashBytes h = Rep_hash h"

definition hashFromBytes :: "bytes \<Rightarrow> hash" where
  "hashFromBytes bs = Abs_hash (take 32 (bs @ replicate 32 0))"

text \<open>
  A \<^verbatim>\<open>time.Time\<close> is an instant, counted in nanoseconds; a \<^verbatim>\<open>time.Duration\<close> is a signed
  64-bit count of nanoseconds, whose arithmetic wraps around. \<^verbatim>\<open>Add\<close> moves an instant by
  a duration, \<^verbatim>\<open>Sub\<close> saturates at the largest and smallest duration.
\<close>

type_synonym time = int
type_synonym Duration = "64 word"

definition Time_Add :: "time \<Rightarrow> Duration \<Rightarrow> time" where
  "Time_Add t d = t + sint d"

definition Time_Sub :: "time \<Rightarrow> time \<Rightarrow> Duration" where
  "Time_Sub t u =
     (if t - u > 2 ^ 63 - 1 then word_of_int (2 ^ 63 - 1)
      else if t - u < - (2 ^ 63) then word_of_int (- (2 ^ 63))
      else word_of_int (t - u))"

subsection \<open>Errors and outcomes\<close>

text \<open>
  The four named errors are the package's own (\<^verbatim>\<open>ErrInvalidBlock\<close>, \<^verbatim>\<open>ErrBlockExists\<close>,
  \<^verbatim>\<open>ErrBlockTimestampOutOfPeriod\<close>, \<^verbatim>\<open>ErrParentNotFound\<close>). The others carry the message of
  the collaborator that failed: header verification, the store, a decoder, the key store.
\<close>

datatype error =
    ErrInvalidBlock
  | ErrBlockExists
  | ErrBlockTimestampOutOfPeriod
  | ErrParentNotFound
  | ValidationError string
  | StoreError string
  | EncodingError string
  | KeyError string

datatype panic = CloseOfClosedChannel | NilDereference

datatype 'a outcome = Ok 'a | Err error | Panic panic

subsection \<open>Fixed-width big-endian elements\<close>

text \<open>
  Modelled from the spec: \<^verbatim>\<open>utils.WriteElements\<close> and \<^verbatim>\<open>utils.ReadElements\<close> are not among the
  sources. The spec fixes what they do for the two element types of a chain state: a hash is
  its 32 bytes, a signed 32-bit height is 4 bytes, most significant first; reading from a
  buffer that ends too early fails with an encoding error. Writing goes to a
  \<^verbatim>\<open>bytes.Buffer\<close>, which does not fail.
\<close>

datatype element = EHash hash | EInt32 "32 word"

datatype elementType = THash | TInt32

definition putInt32 :: "32 word \<Rightarrow> bytes" where
  "putInt32 w = [ucast (drop_bit 24 w), ucast (drop_bit 16 w), ucast (drop_bit 8 w), ucast w]"

fun getInt32 :: "bytes \<Rightarrow> 32 word" where
  "getInt32 [a, b, c, d] =
     or (push_bit 24 (ucast a)) (or (push_bit 16 (ucast b)) (or (push_bit 8 (ucast c)) (ucast d)))"
| "getInt32 _ = 0"

fun writeElement :: "element \<Rightarrow> bytes" where
  "writeElement (EHash h) = hashBytes h"
| "writeElement (EInt32 i) = putInt32 i"

fun WriteElements :: "bytes \<Rightarrow> element list \<Rightarrow> error + bytes" where
  "WriteElements buffer [] = Inr buffer"
| "WriteElements buffer (e # es) = WriteElements (buffer @ writeElement e) es"

fun readElement :: "bytes \<Rightarrow> elementType \<Rightarrow> error + (element \<times> bytes)" where
  "readElement r THash =
     (if length r < 32 then Inl (EncodingError ''unexpected EOF'')
      else Inr (EHash (hashFromBytes (take 32 r)), drop 32 r))"
| "readElement r TInt32 =
     (if length r < 4 then Inl (EncodingError ''unexpected EOF'')
      else Inr (EInt32 (getInt32 (take 4 r)), drop 4 r))"

fun ReadElements :: "bytes \<Rightarrow> elementType list \<Rightarrow> error + element list" where
  "ReadElements r [] = Inr []"
| "ReadElements r (t # ts) =
     (case readElement r t of
        Inl e \<Rightarrow> Inl e
      | Inr (x, r') \<Rightarrow> (case ReadElements r' ts of Inl e \<Rightarrow> Inl e | Inr xs \<Rightarrow> Inr (x # xs)))"

subsection \<open>Headers, blocks, nodes and the block index\<close>

text \<open>
  Modelled from the spec: the declarations of \<^verbatim>\<open>SignedHeader\<close>, \<^verbatim>\<open>Block\<close>, \<^verbatim>\<open>Config\<close>,
  \<^verbatim>\<open>blockNode\<close> and \<^verbatim>\<open>blockIndex\<close> are not among the sources. The records below hold the
  fields that \<^verbatim>\<open>chain.go\<close> reads (\<^verbatim>\<open>ParentHash\<close>, \<^verbatim>\<open>RootHash\<close>, \<^verbatim>\<open>Timestamp\<close>, \<^verbatim>\<open>BlockHash\<close>,
  \<^verbatim>\<open>Genesis\<close>, \<^verbatim>\<open>Period\<close>, \<^verbatim>\<open>DataDir\<close>) and the ones the spec lists beside them (content
  digest, producer, signature, payload). A node is \<open>{hash, height, timestamp, parent}\<close>;
  the node built for a header has the header's block hash and timestamp, height 0 without
  a parent and the parent's height plus one with it. The ordering key of a node is its
  height, 4 bytes most significant first, then its hash. The index maps a hash to its node.
  A block holds its header by value: the \<^verbatim>\<open>*SignedHeader\<close> of a block is taken to be
  non-nil.
\<close>

record SignedHeader =
  ParentHash :: hash
  RootHash :: hash
  MerkleRoot :: hash
  Producer :: bytes
  Timestamp :: time
  BlockHash :: hash
  Signature :: bytes

record Block =
  SignedHeader :: SignedHeader
  Queries :: bytes

record Config =
  DataDir :: string
  Genesis :: Block
  Period :: Duration

datatype blockNode =
  BlockNode (hash: hash) (parent: "blockNode option") (height: "32 word") (timestamp: time)

definition newBlockNode :: "SignedHeader \<Rightarrow> blockNode option \<Rightarrow> blockNode" where
  "newBlockNode header p =
     BlockNode (BlockHash header) p (case p of None \<Rightarrow> 0 | Some n \<Rightarrow> height n + 1)
       (Timestamp header)"

definition initBlockNode :: "SignedHeader \<Rightarrow> blockNode option \<Rightarrow> blockNode" where
  "initBlockNode header p = newBlockNode header p"

definition indexKey :: "blockNode \<Rightarrow> bytes" where
  "indexKey n = putInt32 (height n) @ hashBytes (hash n)"

type_synonym blockIndex = "hash \<rightharpoonup> blockNode"

definition newBlockIndex :: blockIndex where
  "newBlockIndex = Map.empty"

definition AddBlock :: "blockIndex \<Rightarrow> blockNode \<Rightarrow> blockIndex" where
  "AddBlock bi newBlock = bi(hash newBlock \<mapsto> newBlock)"

definition HasBlock :: "blockIndex \<Rightarrow> hash \<Rightarrow> bool" where
  "HasBlock bi h = (bi h \<noteq> None)"

definition LookupNode :: "blockIndex \<Rightarrow> hash \<Rightarrow> blockNode option" where
  "LookupNode bi h = bi h"

subsection \<open>The chain state and its encoding\<close>

record State =
  node :: "blockNode option"
  Head :: hash
  Height :: "32 word"

definition State_marshal :: "State \<Rightarrow> error + bytes" where
  "State_marshal s = WriteElements [] [EHash (Head s), EInt32 (Height s)]"

definition State_unmarshal :: "State \<Rightarrow> bytes \<Rightarrow> error + State" where
  "State_unmarshal s b =
     (case ReadElements b [THash, TInt32] of
        Inl e \<Rightarrow> Inl e
      | Inr [EHash h, EInt32 i] \<Rightarrow> Inr (s\<lparr>Head := h, Height := i\<rparr>)
      | Inr _ \<Rightarrow> Inl (EncodingError ''element type''))"

subsection \<open>The collaborators consumed as capabilities\<close>

text \<open>
  Header and block verification, the header codec, the local key store and header signing
  are other packages' work and not among the sources: they are parameters of the model.
  A verification yields the message of its failure, if any; a codec or key call yields
  the message or the value. \<^verbatim>\<open>SignHeader\<close> also returns the block it has written to.
\<close>

record capabilities =
  Block_VerifyAsGenesis :: "Block \<Rightarrow> string option"
  Block_Verify :: "Block \<Rightarrow> string option"
  Header_VerifyAsGenesis :: "SignedHeader \<Rightarrow> string option"
  Header_Verify :: "SignedHeader \<Rightarrow> string option"
  Header_marshal :: "SignedHeader \<Rightarrow> string + bytes"
  Header_unmarshal :: "bytes \<Rightarrow> string + SignedHeader"
  GetLocalPrivateKey :: "string + bytes"
  SignHeader :: "bytes \<Rightarrow> Block \<Rightarrow> string option \<times> Block"

subsection \<open>The store\<close>

text \<open>
  The bolt file as the chain uses it: the bucket \<^verbatim>\<open>metaBucket\<close> holds the encoded state under
  \<^verbatim>\<open>metaStateKey\<close> and the nested bucket \<^verbatim>\<open>metaBlockIndexBucket\<close> of header records. A file in
  which the buckets were never created is \<open>None\<close>. \<^verbatim>\<open>Put\<close> refuses an empty or oversized key
  and an oversized value, and replaces the value of a key already there. A cursor visits
  the records of a bucket in ascending byte order of their keys. An update transaction runs
  its function on the store and keeps the result only if the function returns no error and
  the commit goes through; the \<open>fault\<close> is what the file system does to this transaction.
\<close>

record boltStore =
  metaState :: "bytes option"
  blockIndexBucket :: "(bytes \<times> bytes) list"

type_synonym DB = "boltStore option"

datatype fault = NoFault | BeginFails string | CommitFails string

definition MaxKeySize :: nat where
  "MaxKeySize = 32768"

definition MaxValueSize :: nat where
  "MaxValueSize = 2147483646"

definition bucket_Put :: "(bytes \<times> bytes) list \<Rightarrow> bytes \<Rightarrow> bytes \<Rightarrow> error + (bytes \<times> bytes) list" where
  "bucket_Put b key val =
     (if key = [] then Inl (StoreError ''key required'')
      else if length key > MaxKeySize then Inl (StoreError ''key too large'')
      else if length val > MaxValueSize then Inl (StoreError ''value too large'')
      else Inr (AList.update key val b))"

definition meta_Put :: "boltStore \<Rightarrow> bytes \<Rightarrow> error + boltStore" where
  "meta_Put s val =
     (if length val > MaxValueSize then Inl (StoreError ''value too large'')
      else Inr (s\<lparr>metaState := Some val\<rparr>))"

definition meta_Get :: "boltStore \<Rightarrow> bytes" where
  "meta_Get s = (case metaState s of None \<Rightarrow> [] | Some b \<Rightarrow> b)"

definition cursor_entries :: "(bytes \<times> bytes) list \<Rightarrow> (bytes \<times> bytes) list" where
  "cursor_entries b = sort_key fst b"

definition db_Update :: "fault \<Rightarrow> 'a \<Rightarrow> ('a \<Rightarrow> error + 'b) \<Rightarrow> error + 'b" where
  "db_Update ft d fn =
     (case ft of
        BeginFails m \<Rightarrow> Inl (StoreError m)
      | _ \<Rightarrow>
        (case fn d of
           Inl e \<Rightarrow> Inl e
         | Inr d' \<Rightarrow> (case ft of CommitFails m \<Rightarrow> Inl (StoreError m) | _ \<Rightarrow> Inr d')))"

definition createBuckets :: "DB \<Rightarrow> error + boltStore" where
  "createBuckets d =
     (case d of
        None \<Rightarrow> Inr \<lparr>metaState = None, blockIndexBucket = []\<rparr>
      | Some s \<Rightarrow> Inr s)"

subsection \<open>The runtime clock\<close>

datatype chan = Open | Closed

record Runtime =
  Offset :: Duration
  Period :: Duration
  ChainInitTime :: time
  NextHeight :: "32 word"
  stopCh :: chan

text \<open>\<open>wall\<close> is what \<^verbatim>\<open>time.Now()\<close> returns at the call.\<close>

definition UpdateTime :: "Runtime \<Rightarrow> time \<Rightarrow> time \<Rightarrow> Runtime" where
  "UpdateTime r now wall = r\<lparr>Offset := Time_Sub now wall\<rparr>"


definition GotoNextTurn :: "Runtime \<Rightarrow> Runtime" where
  "GotoNextTurn r = r\<lparr>NextHeight := NextHeight r + 1\<rparr>"

definition Runtime_Stop :: "Runtime \<Rightarrow> Runtime outcome" where
  "Runtime_Stop r =
     (case stopCh r of
        Closed \<Rightarrow> Panic CloseOfClosedChannel
      | Open \<Rightarrow> Ok (r\<lparr>stopCh := Closed\<rparr>))"


subsection \<open>The chain\<close>

text \<open>
  A chain is built by \<^verbatim>\<open>NewChain\<close>, after the transaction that creates the buckets, or by
  \<^verbatim>\<open>LoadChain\<close>, after it has read both buckets; so the store of a chain has its buckets.
\<close>

record Chain =
  cfg :: Config
  db :: boltStore
  index :: blockIndex
  rt :: Runtime
  pendingBlock :: Block
  state :: State

definition zeroHash :: hash where
  "zeroHash = hashFromBytes []"

definition zeroHeader :: SignedHeader where
  "zeroHeader = \<lparr>ParentHash = zeroHash, RootHash = zeroHash, MerkleRoot = zeroHash,
     Producer = [], Timestamp = 0, BlockHash = zeroHash, Signature = []\<rparr>"

definition zeroBlock :: Block where
  "zeroBlock = \<lparr>SignedHeader = zeroHeader, Queries = []\<rparr>"

definition newRuntime :: "Config \<Rightarrow> Runtime" where
  "newRuntime c = \<lparr>Offset = 0, Period = Config.Period c,
     ChainInitTime = Timestamp (SignedHeader (Genesis c)), NextHeight = 1, stopCh = Open\<rparr>"

text \<open>
  \<^verbatim>\<open>PushBlock\<close>: the result is the error returned, if any, and the chain as the call
  leaves it.
\<close>

definition PushBlock :: "capabilities \<Rightarrow> fault \<Rightarrow> Chain \<Rightarrow> SignedHeader \<Rightarrow> error option \<times> Chain" where
  "PushBlock caps ft c block =
     (if ParentHash block \<noteq> Head (state c) then (Some ErrInvalidBlock, c)
      else
        let n = newBlockNode block (node (state c));
            st = (state c)\<lparr>node := Some n, Head := BlockHash block, Height := Height (state c) + 1\<rparr>;
            c1 = c\<lparr>state := st, index := AddBlock (index c) n\<rparr>
        in (case db_Update ft (db c1) (\<lambda>tx.
                  case Header_marshal caps block of
                    Inl m \<Rightarrow> Inl (EncodingError m)
                  | Inr buffer \<Rightarrow>
                    (case bucket_Put (blockIndexBucket tx) (indexKey n) buffer of
                       Inl e \<Rightarrow> Inl e
                     | Inr bi \<Rightarrow>
                       (case State_marshal st of
                          Inl e \<Rightarrow> Inl e
                        | Inr buffer' \<Rightarrow> meta_Put (tx\<lparr>blockIndexBucket := bi\<rparr>) buffer')))
            of Inl e \<Rightarrow> (Some e, c1)
             | Inr d \<Rightarrow> (None, c1\<lparr>db := d\<rparr>)))"

definition AdviseNewBlock :: "capabilities \<Rightarrow> fault \<Rightarrow> Chain \<Rightarrow> Block \<Rightarrow> error option \<times> Chain" where
  "AdviseNewBlock caps ft c block =
     (if HasBlock (index c) (BlockHash (SignedHeader block)) then (Some ErrBlockExists, c)
      else
        let start = Time_Add (Timestamp (SignedHeader (Genesis (cfg c))))
                      (scast (Height (state c) + 1) * Config.Period (cfg c));
            end = Time_Add start (Config.Period (cfg c));
            ptime = Timestamp (SignedHeader block)
        in if ptime < start \<or> (ptime = end \<or> ptime > end)
           then (Some ErrBlockTimestampOutOfPeriod, c)
           else (case Block_Verify caps block of
                   Some m \<Rightarrow> (Some (ValidationError m), c)
                 | None \<Rightarrow> PushBlock caps ft c (SignedHeader block)))"

text \<open>
  \<^verbatim>\<open>NewChain\<close>: \<open>opened\<close> is what \<^verbatim>\<open>bolt.Open\<close> returns for the data directory; \<open>ft\<close> and \<open>ft'\<close>
  are the faults of its two transactions. \<open>newChainState\<close> is the chain literal built
  before the genesis header is pushed.
\<close>

definition newChainState :: "Config \<Rightarrow> boltStore \<Rightarrow> Chain" where
  "newChainState c d = \<lparr>cfg = c, db = d, index = newBlockIndex, rt = newRuntime c,
     pendingBlock = zeroBlock,
     state = \<lparr>node = None, Head = RootHash (SignedHeader (Genesis c)), Height = - 1\<rparr>\<rparr>"

definition NewChain :: "capabilities \<Rightarrow> string + DB \<Rightarrow> fault \<Rightarrow> fault \<Rightarrow> Config \<Rightarrow> error + Chain" where
  "NewChain caps opened ft ft' c =
     (case Block_VerifyAsGenesis caps (Genesis c) of
        Some m \<Rightarrow> Inl (ValidationError m)
      | None \<Rightarrow>
        (case opened of
           Inl m \<Rightarrow> Inl (StoreError m)
         | Inr d \<Rightarrow>
           (case db_Update ft d createBuckets of
              Inl e \<Rightarrow> Inl e
            | Inr d' \<Rightarrow>
              (case PushBlock caps ft' (newChainState c d') (SignedHeader (Genesis c)) of
                 (Some e, _) \<Rightarrow> Inl e
               | (None, chain) \<Rightarrow> Inr chain))))"

text \<open>
  \<^verbatim>\<open>LoadChain\<close>. \<open>loadRecord\<close> is the body of the cursor loop for one record, given the
  node of the record before it; \<open>loadRecords\<close> is the loop, filling the local array
  \<open>nodes\<close>. The index read in the loop is the chain's.
\<close>

definition loadRecord :: "capabilities \<Rightarrow> blockIndex \<Rightarrow> blockNode option \<Rightarrow> bytes \<Rightarrow> error + blockNode" where
  "loadRecord caps bi lastNode v =
     (case Header_unmarshal caps v of
        Inl m \<Rightarrow> Inl (EncodingError m)
      | Inr header \<Rightarrow>
        (case lastNode of
           None \<Rightarrow>
             (case Header_VerifyAsGenesis caps header of
                Some m \<Rightarrow> Inl (ValidationError m)
              | None \<Rightarrow> Inr (initBlockNode header None))
         | Some l \<Rightarrow>
             if ParentHash header = hash l then
               (case Header_Verify caps header of
                  Some m \<Rightarrow> Inl (ValidationError m)
                | None \<Rightarrow> Inr (initBlockNode header (Some l)))
             else
               (case LookupNode bi (ParentHash header) of
                  None \<Rightarrow> Inl ErrParentNotFound
                | Some p \<Rightarrow> Inr (initBlockNode header (Some p)))))"

fun loadRecords :: "capabilities \<Rightarrow> blockIndex \<Rightarrow> blockNode option \<Rightarrow> blockNode list \<Rightarrow>
    (bytes \<times> bytes) list \<Rightarrow> error + blockNode list" where
  "loadRecords caps bi lastNode nodes [] = Inr nodes"
| "loadRecords caps bi lastNode nodes ((k, v) # kvs) =
     (case loadRecord caps bi lastNode v of
        Inl e \<Rightarrow> Inl e
      | Inr n \<Rightarrow> loadRecords caps bi (Some n) (nodes @ [n]) kvs)"

definition loadChainState :: "Config \<Rightarrow> boltStore \<Rightarrow> Chain" where
  "loadChainState c d = \<lparr>cfg = c, db = d, index = newBlockIndex, rt = newRuntime c,
     pendingBlock = zeroBlock, state = \<lparr>node = None, Head = zeroHash, Height = 0\<rparr>\<rparr>"

definition LoadChain :: "capabilities \<Rightarrow> string + DB \<Rightarrow> string option \<Rightarrow> Config \<Rightarrow> Chain outcome" where
  "LoadChain caps opened ft c =
     (case opened of
        Inl m \<Rightarrow> Err (StoreError m)
      | Inr d \<Rightarrow>
        (case ft of
           Some m \<Rightarrow> Err (StoreError m)
         | None \<Rightarrow>
           (case d of
              None \<Rightarrow> Panic NilDereference
            | Some s \<Rightarrow>
              let chain = loadChainState c s in
              (case State_unmarshal (state chain) (meta_Get s) of
                 Inl e \<Rightarrow> Err e
               | Inr st \<Rightarrow>
                 (case loadRecords caps (index chain) None []
                         (cursor_entries (blockIndexBucket s)) of
                    Inl e \<Rightarrow> Err e
                  | Inr nodes \<Rightarrow> Ok (chain\<lparr>state := st\<rparr>))))))"

subsection \<open>Producing blocks\<close>

definition IsMyTurn :: "Chain \<Rightarrow> bool" where
  "IsMyTurn c = False"

definition ProduceBlock :: "capabilities \<Rightarrow> Chain \<Rightarrow> error option \<times> Chain" where
  "ProduceBlock caps c =
     (case GetLocalPrivateKey caps of
        Inl m \<Rightarrow> (Some (KeyError m), c)
      | Inr priv \<Rightarrow>
        (case SignHeader caps priv (pendingBlock c) of
           (r, b) \<Rightarrow> (map_option KeyError r, c\<lparr>pendingBlock := b\<rparr>)))"

definition Chain_Stop :: "Chain \<Rightarrow> Chain outcome" where
  "Chain_Stop c =
     (case Runtime_Stop (rt c) of
        Ok r \<Rightarrow> Ok (c\<lparr>rt := r\<rparr>)
      | Err e \<Rightarrow> Err e
      | Panic p \<Rightarrow> Panic p)"




subsection \<open>Reachable chains and the head invariant\<close>

text \<open>
  The chains a program can hold: the one \<^verbatim>\<open>NewChain\<close> builds before its genesis push, the
  one \<^verbatim>\<open>LoadChain\<close> returns, and whatever the exported operations make of a chain, whether
  they return an error or not.
\<close>

inductive reachable :: "capabilities \<Rightarrow> Chain \<Rightarrow> bool" for caps :: capabilities where
  fresh: "reachable caps (newChainState c d)"
| loaded: "LoadChain caps opened vf c = Ok chain \<Longrightarrow> reachable caps chain"
| pushed: "reachable caps chain \<Longrightarrow> PushBlock caps ft chain block = (r, chain') \<Longrightarrow>
    reachable caps chain'"
| advised: "reachable caps chain \<Longrightarrow> AdviseNewBlock caps ft chain b = (r, chain') \<Longrightarrow>
    reachable caps chain'"
| produced: "reachable caps chain \<Longrightarrow> ProduceBlock caps chain = (r, chain') \<Longrightarrow>
    reachable caps chain'"
| stopped: "reachable caps chain \<Longrightarrow> Chain_Stop chain = Ok chain' \<Longrightarrow> reachable caps chain'"
| turned: "reachable caps chain \<Longrightarrow> reachable caps (chain\<lparr>rt := GotoNextTurn (rt chain)\<rparr>)"
| timed: "reachable caps chain \<Longrightarrow> reachable caps (chain\<lparr>rt := UpdateTime (rt chain) now wall\<rparr>)"

definition headInvariant :: "Chain \<Rightarrow> bool" where
  "headInvariant c = (case node (state c) of None \<Rightarrow> True | Some n \<Rightarrow> Head (state c) = hash n)"

subsection \<open>A small chain to evaluate the model on\<close>

text \<open>
  A genesis block at time 1000 with period 10, a second block for the slot that follows,
  and capabilities that accept every header, encode a header as its block hash (decoding
  the two headers of this chain), and have no local key.
\<close>

definition hashA :: hash where
  "hashA = hashFromBytes [1]"

definition hashB :: hash where
  "hashB = hashFromBytes [2]"

definition genesisHeader :: SignedHeader where
  "genesisHeader = \<lparr>ParentHash = zeroHash, RootHash = zeroHash, MerkleRoot = zeroHash,
     Producer = [], Timestamp = 1000, BlockHash = hashA, Signature = []\<rparr>"

definition secondHeader :: SignedHeader where
  "secondHeader = \<lparr>ParentHash = hashA, RootHash = zeroHash, MerkleRoot = zeroHash,
     Producer = [], Timestamp = 1010, BlockHash = hashB, Signature = []\<rparr>"

definition genesisBlock :: Block where
  "genesisBlock = \<lparr>SignedHeader = genesisHeader, Queries = []\<rparr>"

definition secondBlock :: Block where
  "secondBlock = \<lparr>SignedHeader = secondHeader, Queries = []\<rparr>"

definition smallConfig :: Config where
  "smallConfig = \<lparr>DataDir = ''data'', Genesis = genesisBlock, Period = 10\<rparr>"

definition smallCaps :: capabilities where
  "smallCaps = \<lparr>
     Block_VerifyAsGenesis = (\<lambda>b. None),
     Block_Verify = (\<lambda>b. None),
     Header_VerifyAsGenesis = (\<lambda>h. None),
     Header_Verify = (\<lambda>h. None),
     Header_marshal = (\<lambda>h. Inr (hashBytes (BlockHash h))),
     Header_unmarshal = (\<lambda>v.
       if v = hashBytes hashA then Inr genesisHeader
       else if v = hashBytes hashB then Inr secondHeader
       else Inl ''unknown header''),
     GetLocalPrivateKey = Inl ''no local key'',
     SignHeader = (\<lambda>k b. (None, b))\<rparr>"

definition genesisNode :: blockNode where
  "genesisNode = BlockNode hashA None 0 1000"

definition genesisState :: State where
  "genesisState = \<lparr>node = Some genesisNode, Head = hashA, Height = 0\<rparr>"

definition genesisStore :: boltStore where
  "genesisStore = \<lparr>metaState = Some (hashBytes hashA @ putInt32 0),
     blockIndexBucket = [(putInt32 0 @ hashBytes hashA, hashBytes hashA)]\<rparr>"

definition genesisChain :: Chain where
  "genesisChain = \<lparr>cfg = smallConfig, db = genesisStore, index = [hashA \<mapsto> genesisNode],
     rt = newRuntime smallConfig, pendingBlock = zeroBlock, state = genesisState\<rparr>"

definition secondNode :: blockNode where
  "secondNode = BlockNode hashB (Some genesisNode) 1 1010"

definition secondStore :: boltStore where
  "secondStore = \<lparr>metaState = Some (hashBytes hashB @ putInt32 1),
     blockIndexBucket = [(putInt32 0 @ hashBytes hashA, hashBytes hashA),
       (putInt32 1 @ hashBytes hashB, hashBytes hashB)]\<rparr>"

definition secondChain :: Chain where
  "secondChain = \<lparr>cfg = smallConfig, db = secondStore,
     index = [hashA \<mapsto> genesisNode, hashB \<mapsto> secondNode],
     rt = newRuntime smallConfig, pendingBlock = zeroBlock,
     state = \<lparr>node = Some secondNode, Head = hashB, Height = 1\<rparr>\<rparr>"

definition reloadedChain :: Chain where
  "reloadedChain = \<lparr>cfg = smallConfig, db = secondStore, index = Map.empty,
     rt = newRuntime smallConfig, pendingBlock = zeroBlock,
     state = \<lparr>node = None, Head = hashB, Height = 1\<rparr>\<rparr>"

text \<open>
  The second block stamped at the end of its slot and one nanosecond before its start.
\<close>

definition lateBlock :: Block where
  "lateBlock = \<lparr>SignedHeader = secondHeader\<lparr>Timestamp := 1020\<rparr>, Queries = []\<rparr>"

definition earlyBlock :: Block where
  "earlyBlock = \<lparr>SignedHeader = secondHeader\<lparr>Timestamp := 1009\<rparr>, Queries = []\<rparr>"

text \<open>
  A store with a fork: after the genesis record and the record of the second block comes,
  in key order, the record of a sibling of the second block, whose parent is the genesis
  block. \<open>forkCaps\<close> are the small capabilities, decoding the sibling's header as well.
\<close>

definition hashC :: hash where
  "hashC = hashFromBytes [3]"

definition siblingHeader :: SignedHeader where
  "siblingHeader = \<lparr>ParentHash = hashA, RootHash = zeroHash, MerkleRoot = zeroHash,
     Producer = [], Timestamp = 1010, BlockHash = hashC, Signature = []\<rparr>"

definition forkCaps :: capabilities where
  "forkCaps = smallCaps\<lparr>Header_unmarshal := (\<lambda>v.
     if v = hashBytes hashC then Inr siblingHeader else Header_unmarshal smallCaps v)\<rparr>"

definition forkStore :: boltStore where
  "forkStore = \<lparr>metaState = Some (hashBytes hashB @ putInt32 1),
     blockIndexBucket = [(putInt32 0 @ hashBytes hashA, hashBytes hashA),
       (putInt32 1 @ hashBytes hashB, hashBytes hashB),
       (putInt32 1 @ hashBytes hashC, hashBytes hashC)]\<rparr>"

text \<open>
  Three chains on which the start of the next slot is not what the formula
  \<open>T0 + (h + 1) * P\<close> gives a positive value for: the small chain with period 0; the chain
  loaded from a store whose state record holds the largest 32-bit height; the small chain
  after its second block with a period of \<open>2 ^ 62\<close> nanoseconds. With each, a block
  stamped exactly \<open>T0 + (h + 1) * P\<close>.
\<close>

definition zeroPeriodConfig :: Config where
  "zeroPeriodConfig = \<lparr>DataDir = ''data'', Genesis = genesisBlock, Period = 0\<rparr>"

definition zeroPeriodChain :: Chain where
  "zeroPeriodChain = genesisChain\<lparr>cfg := zeroPeriodConfig, rt := newRuntime zeroPeriodConfig\<rparr>"

definition zeroPeriodBlock :: Block where
  "zeroPeriodBlock = \<lparr>SignedHeader = secondHeader\<lparr>Timestamp := 1000\<rparr>, Queries = []\<rparr>"

definition maxHeightStore :: boltStore where
  "maxHeightStore = genesisStore\<lparr>metaState := Some (hashBytes hashA @ putInt32 2147483647)\<rparr>"

definition maxHeightChain :: Chain where
  "maxHeightChain = \<lparr>cfg = smallConfig, db = maxHeightStore, index = Map.empty,
     rt = newRuntime smallConfig, pendingBlock = zeroBlock,
     state = \<lparr>node = None, Head = hashA, Height = 2147483647\<rparr>\<rparr>"

definition maxHeightBlock :: Block where
  "maxHeightBlock = \<lparr>SignedHeader = secondHeader\<lparr>Timestamp := 21474837480\<rparr>, Queries = []\<rparr>"

definition longPeriodConfig :: Config where
  "longPeriodConfig = \<lparr>DataDir = ''data'', Genesis = genesisBlock,
     Period = 4611686018427387904\<rparr>"

definition longPeriodChain :: Chain where
  "longPeriodChain = secondChain\<lparr>cfg := longPeriodConfig, rt := newRuntime longPeriodConfig\<rparr>"

definition longPeriodBlock :: Block where
  "longPeriodBlock = \<lparr>SignedHeader = \<lparr>ParentHash = hashB, RootHash = zeroHash,
     MerkleRoot = zeroHash, Producer = [], Timestamp = 9223372036854776808, BlockHash = hashC,
     Signature = []\<rparr>, Queries = []\<rparr>"

section \<open>Properties\<close>

subsection \<open>Encodings\<close>

lemma getInt32_putInt32: "getInt32 (putInt32 w) = w"
proof (rule bit_word_eqI)
  fix n
  assume "n < LENGTH(32)"
  then consider "n < 8" | "8 \<le> n" "n < 16" | "16 \<le> n" "n < 24" | "24 \<le> n" "n < 32"
    by fastforce
  then show "bit (getInt32 (putInt32 w)) n = bit w n"
    by cases (auto simp add: putInt32_def bit_simps)
qed

lemma length_putInt32: "length (putInt32 w) = 4"
  by (simp add: putInt32_def)

lemma hashBytes_length: "length (hashBytes h) = 32"
  using Rep_hash [of h] by (simp add: hashBytes_def)

lemma hashFromBytes_hashBytes: "hashFromBytes (hashBytes h) = h"
  using Rep_hash [of h] by (simp add: hashFromBytes_def hashBytes_def Rep_hash_inverse)

lemma hashBytes_hashFromBytes: "hashBytes (hashFromBytes bs) = take 32 (bs @ replicate 32 0)"
  by (simp add: hashFromBytes_def hashBytes_def Abs_hash_inverse)

lemma hashBytes_eq_iff: "hashBytes a = hashBytes b \<longleftrightarrow> a = b"
  by (simp add: hashBytes_def Rep_hash_inject)

lemma hashFromBytes_eq_iff:
  "hashFromBytes a = hashFromBytes b \<longleftrightarrow>
     take 32 (a @ replicate 32 0) = take 32 (b @ replicate 32 0)"
  by (metis hashBytes_hashFromBytes hashFromBytes_def)

lemma State_marshal_eq: "State_marshal s = Inr (hashBytes (Head s) @ putInt32 (Height s))"
  by (simp add: State_marshal_def)

lemma State_unmarshal_eq:
  "State_unmarshal s (hashBytes h @ putInt32 i) = Inr (s\<lparr>Head := h, Height := i\<rparr>)"
  by (simp add: State_unmarshal_def hashBytes_length hashFromBytes_hashBytes
      getInt32_putInt32 length_putInt32)

text \<open>
  Claim C8. Marshalling a chain state never fails, and unmarshalling the bytes it gives
  into any state sets that state's head hash and height to the marshalled ones: for every
  32-byte hash and every signed 32-bit height (the sentinel \<open>- 1\<close> among them) the pair
  comes back exactly. Unmarshalling into the marshalled state itself gives that state.
\<close>

theorem State_marshal_unmarshal_roundtrip:
  "\<exists>b. State_marshal s = Inr b \<and>
     State_unmarshal s' b = Inr (s'\<lparr>Head := Head s, Height := Height s\<rparr>) \<and>
     State_unmarshal s b = Inr s"
  by (simp add: State_marshal_eq State_unmarshal_eq)

subsection \<open>The small chain\<close>

lemma small_hashes0: "hashA \<noteq> zeroHash" "hashB \<noteq> zeroHash" "hashA \<noteq> hashB"
  by (simp_all add: hashA_def hashB_def zeroHash_def hashFromBytes_eq_iff Cons_replicate_eq)

lemmas small_hashes = small_hashes0 small_hashes0 [THEN not_sym]

lemmas small_defs = genesisHeader_def secondHeader_def genesisBlock_def secondBlock_def
  smallConfig_def smallCaps_def genesisNode_def genesisState_def genesisStore_def genesisChain_def

lemmas small_defs2 = secondNode_def secondStore_def secondChain_def

lemmas store_defs = db_Update_def bucket_Put_def meta_Put_def MaxKeySize_def MaxValueSize_def
  indexKey_def length_putInt32 hashBytes_length State_marshal_eq

lemma small_keys:
  "putInt32 0 @ x \<le> putInt32 1 @ y" "putInt32 0 @ x \<noteq> putInt32 1 @ y"
  "putInt32 1 @ y \<noteq> putInt32 0 @ x" "\<not> putInt32 1 @ y \<le> putInt32 0 @ x"
  by (simp_all add: putInt32_def)

lemma fork_hashes0: "hashC \<noteq> zeroHash" "hashC \<noteq> hashA" "hashC \<noteq> hashB"
  by (simp_all add: hashA_def hashB_def hashC_def zeroHash_def hashFromBytes_eq_iff Cons_replicate_eq)

lemmas fork_hashes = fork_hashes0 fork_hashes0 [THEN not_sym]

lemma NewChain_small:
  "NewChain smallCaps (Inr None) NoFault NoFault smallConfig = Inr genesisChain"
  by (simp add: NewChain_def createBuckets_def PushBlock_def newChainState_def Let_def
      newBlockNode_def AddBlock_def newBlockIndex_def small_defs store_defs putInt32_def)

lemma PushBlock_second:
  "PushBlock smallCaps NoFault genesisChain secondHeader = (None, secondChain)"
  by (simp add: PushBlock_def Let_def newBlockNode_def AddBlock_def small_defs small_defs2
      store_defs putInt32_def small_hashes hashBytes_eq_iff)

lemma PushBlock_genesis_again:
  "PushBlock smallCaps NoFault genesisChain genesisHeader = (Some ErrInvalidBlock, genesisChain)"
  by (simp add: PushBlock_def genesisChain_def genesisState_def genesisHeader_def small_hashes)

lemma PushBlock_disk_full:
  "PushBlock smallCaps (CommitFails ''disk full'') genesisChain secondHeader =
     (Some (StoreError ''disk full''), secondChain\<lparr>db := genesisStore\<rparr>)"
  by (simp add: PushBlock_def Let_def newBlockNode_def AddBlock_def small_defs small_defs2
      store_defs putInt32_def small_hashes hashBytes_eq_iff)

lemma AdviseNewBlock_genesis_again:
  "AdviseNewBlock smallCaps NoFault genesisChain genesisBlock = (Some ErrBlockExists, genesisChain)"
  by (simp add: AdviseNewBlock_def HasBlock_def genesisChain_def genesisBlock_def genesisHeader_def)

subsection \<open>Pushing and advising a block\<close>

lemma hash_newBlockNode: "hash (newBlockNode b p) = BlockHash b"
  by (simp add: newBlockNode_def)

lemma PushBlock_reject:
  "ParentHash block \<noteq> Head (state c) \<Longrightarrow> PushBlock caps ft c block = (Some ErrInvalidBlock, c)"
  by (simp add: PushBlock_def)

lemma PushBlock_accept:
  assumes "ParentHash block = Head (state c)" and "PushBlock caps ft c block = (r, c')"
  shows "state c' = \<lparr>node = Some (newBlockNode block (node (state c))), Head = BlockHash block,
            Height = Height (state c) + 1\<rparr>"
    and "index c' = AddBlock (index c) (newBlockNode block (node (state c)))"
    and "cfg c' = cfg c" and "rt c' = rt c" and "pendingBlock c' = pendingBlock c"
    and "r \<noteq> None \<Longrightarrow> db c' = db c"
    and "r = Some e \<Longrightarrow> (\<exists>m. e = StoreError m \<or> e = EncodingError m)"
  using assms
  by (auto simp add: PushBlock_def Let_def db_Update_def bucket_Put_def meta_Put_def State_marshal_eq
      split: sum.splits fault.splits if_splits)

lemma AdviseNewBlock_cases:
  assumes "AdviseNewBlock caps ft c b = (r, c')"
  shows "(c' = c \<and> (r = Some ErrBlockExists \<or> r = Some ErrBlockTimestampOutOfPeriod \<or>
            (\<exists>m. r = Some (ValidationError m)))) \<or>
         (\<not> HasBlock (index c) (BlockHash (SignedHeader b)) \<and>
            PushBlock caps ft c (SignedHeader b) = (r, c'))"
  using assms
  by (auto simp add: AdviseNewBlock_def Let_def split: if_splits option.splits)

text \<open>
  Claim C4. \<^verbatim>\<open>PushBlock\<close> accepts only a strict extension of the head: a header whose parent
  hash differs from the current head hash gets \<^verbatim>\<open>ErrInvalidBlock\<close> and the chain (height and
  head among the rest) is left as it was; and whenever \<^verbatim>\<open>PushBlock\<close> returns no error, the
  header's parent hash was the head hash.
\<close>

theorem PushBlock_strict_extension:
  "(ParentHash block \<noteq> Head (state c) \<longrightarrow> PushBlock caps ft c block = (Some ErrInvalidBlock, c)) \<and>
   (fst (PushBlock caps ft c block) = None \<longrightarrow> ParentHash block = Head (state c))"
  by (auto simp add: PushBlock_def)

theorem PushBlock_strict_extension_witness:
  "ParentHash genesisHeader \<noteq> Head (state genesisChain) \<and>
   PushBlock smallCaps NoFault genesisChain genesisHeader = (Some ErrInvalidBlock, genesisChain) \<and>
   fst (PushBlock smallCaps NoFault genesisChain secondHeader) = None \<and>
   ParentHash secondHeader = Head (state genesisChain)"
  using PushBlock_strict_extension [of genesisHeader genesisChain smallCaps NoFault]
    PushBlock_strict_extension [of secondHeader genesisChain smallCaps NoFault]
  by (simp add: PushBlock_second PushBlock_genesis_again)
    (simp add: genesisHeader_def secondHeader_def genesisChain_def genesisState_def small_hashes)

text \<open>
  Claim C1, as stated, fails: \<^verbatim>\<open>PushBlock\<close> updates the head node, head hash, height and the
  index before it opens the store transaction. On the chain that \<^verbatim>\<open>NewChain\<close> returns for the
  small configuration, pushing the second header while the commit fails returns the store's
  error, and yet the height has gone from 0 to 1, the head from the genesis hash to the new
  one, and the index holds the new hash.
\<close>

theorem PushBlock_commit_failure_mutates:
  "NewChain smallCaps (Inr None) NoFault NoFault smallConfig = Inr genesisChain \<and>
   fst (PushBlock smallCaps (CommitFails ''disk full'') genesisChain secondHeader) =
     Some (StoreError ''disk full'') \<and>
   Height (state genesisChain) = 0 \<and>
   Height (state (snd (PushBlock smallCaps (CommitFails ''disk full'') genesisChain secondHeader))) = 1 \<and>
   Head (state genesisChain) = hashA \<and>
   Head (state (snd (PushBlock smallCaps (CommitFails ''disk full'') genesisChain secondHeader))) = hashB \<and>
   \<not> HasBlock (index genesisChain) hashB \<and>
   HasBlock (index (snd (PushBlock smallCaps (CommitFails ''disk full'') genesisChain secondHeader))) hashB"
  by (simp add: NewChain_small)
    (simp add: PushBlock_def Let_def newBlockNode_def AddBlock_def HasBlock_def small_defs store_defs
      putInt32_def small_hashes)

text \<open>
  Claim C1, amended. A call that returns a validation or conflict error (\<^verbatim>\<open>ErrInvalidBlock\<close>
  from \<^verbatim>\<open>PushBlock\<close>; that, \<^verbatim>\<open>ErrBlockExists\<close>, \<^verbatim>\<open>ErrBlockTimestampOutOfPeriod\<close> or a failed
  verification from \<^verbatim>\<open>AdviseNewBlock\<close>) leaves the whole chain as it was. A call that returns
  any error leaves the store as it was. A \<^verbatim>\<open>PushBlock\<close> that returns any other error than
  \<^verbatim>\<open>ErrInvalidBlock\<close> has failed in its transaction (a store or an encoding error), and the
  head node, head hash, height and index are those of the pushed block all the same: the
  chain state is written before the transaction, not after its commit.
\<close>

theorem PushBlock_error_effects:
  "(PushBlock caps ft c block = (Some ErrInvalidBlock, c') \<longrightarrow> c' = c) \<and>
   (AdviseNewBlock caps ft c b = (Some e, c') \<and>
      (e = ErrBlockExists \<or> e = ErrBlockTimestampOutOfPeriod \<or> e = ErrInvalidBlock \<or>
       (\<exists>m. e = ValidationError m)) \<longrightarrow> c' = c) \<and>
   (PushBlock caps ft c block = (Some e, c') \<longrightarrow> db c' = db c) \<and>
   (AdviseNewBlock caps ft c b = (Some e, c') \<longrightarrow> db c' = db c) \<and>
   (PushBlock caps ft c block = (Some e, c') \<and> e \<noteq> ErrInvalidBlock \<longrightarrow>
      (\<exists>m. e = StoreError m \<or> e = EncodingError m) \<and>
      node (state c') = Some (newBlockNode block (node (state c))) \<and>
      Head (state c') = BlockHash block \<and>
      Height (state c') = Height (state c) + 1 \<and>
      index c' = AddBlock (index c) (newBlockNode block (node (state c))))"
proof -
  have reject: "c' = c" if "PushBlock caps ft c block = (Some ErrInvalidBlock, c')" for block c'
    using that PushBlock_accept(7) [of block c caps ft "Some ErrInvalidBlock" c' ErrInvalidBlock]
      PushBlock_reject [of block c caps ft]
    by (cases "ParentHash block = Head (state c)") auto
  have advise: "c' = c"
    if "AdviseNewBlock caps ft c b = (Some e, c') \<and>
      (e = ErrBlockExists \<or> e = ErrBlockTimestampOutOfPeriod \<or> e = ErrInvalidBlock \<or>
       (\<exists>m. e = ValidationError m))"
    using that AdviseNewBlock_cases [of caps ft c b "Some e" c']
      PushBlock_accept(7) [of "SignedHeader b" c caps ft "Some e" c' e]
      PushBlock_reject [of "SignedHeader b" c caps ft]
    by (cases "ParentHash (SignedHeader b) = Head (state c)") auto
  have store: "db c' = db c" if "PushBlock caps ft c block = (Some e, c')" for block
    using that PushBlock_accept(6) [of block c caps ft "Some e" c']
      PushBlock_reject [of block c caps ft]
    by (cases "ParentHash block = Head (state c)") auto
  have store': "db c' = db c" if "AdviseNewBlock caps ft c b = (Some e, c')"
    using AdviseNewBlock_cases [OF that] store [of "SignedHeader b"] by auto
  have memory: "(\<exists>m. e = StoreError m \<or> e = EncodingError m) \<and>
      node (state c') = Some (newBlockNode block (node (state c))) \<and>
      Head (state c') = BlockHash block \<and>
      Height (state c') = Height (state c) + 1 \<and>
      index c' = AddBlock (index c) (newBlockNode block (node (state c)))"
    if p: "PushBlock caps ft c block = (Some e, c') \<and> e \<noteq> ErrInvalidBlock"
  proof -
    from p have eq: "ParentHash block = Head (state c)"
      using PushBlock_reject [of block c caps ft] by auto
    from p PushBlock_accept [OF eq, of caps ft "Some e" c'] show ?thesis
      by simp
  qed
  from reject advise store store' memory show ?thesis
    by blast
qed

theorem PushBlock_error_effects_witness:
  "PushBlock smallCaps NoFault genesisChain genesisHeader = (Some ErrInvalidBlock, genesisChain) \<and>
   AdviseNewBlock smallCaps NoFault genesisChain genesisBlock = (Some ErrBlockExists, genesisChain) \<and>
   PushBlock smallCaps (CommitFails ''disk full'') genesisChain secondHeader =
     (Some (StoreError ''disk full''), secondChain\<lparr>db := genesisStore\<rparr>) \<and>
   db (secondChain\<lparr>db := genesisStore\<rparr>) = db genesisChain \<and>
   Head (state (secondChain\<lparr>db := genesisStore\<rparr>)) = BlockHash secondHeader \<and>
   Height (state (secondChain\<lparr>db := genesisStore\<rparr>)) = Height (state genesisChain) + 1"
  using PushBlock_error_effects [where caps = smallCaps and ft = NoFault and c = genesisChain
      and block = genesisHeader and c' = genesisChain and b = genesisBlock and e = ErrBlockExists]
    PushBlock_error_effects [where caps = smallCaps and ft = "CommitFails ''disk full''"
      and c = genesisChain and block = secondHeader and c' = "secondChain\<lparr>db := genesisStore\<rparr>"
      and e = "StoreError ''disk full''"]
  by (simp add: PushBlock_genesis_again AdviseNewBlock_genesis_again PushBlock_disk_full)

text \<open>
  Claim C6. Once a block has been pushed without error, by \<^verbatim>\<open>PushBlock\<close> on its header or by
  \<^verbatim>\<open>AdviseNewBlock\<close>, advising the same block again returns \<^verbatim>\<open>ErrBlockExists\<close>, whatever its
  timestamp or signature, and the chain (its height among the rest) stays as the push left
  it.
\<close>

theorem AdviseNewBlock_duplicate:
  "(PushBlock caps ft c (SignedHeader block) = (None, c') \<longrightarrow>
      AdviseNewBlock caps ft' c' block = (Some ErrBlockExists, c')) \<and>
   (AdviseNewBlock caps ft c block = (None, c') \<longrightarrow>
      AdviseNewBlock caps ft' c' block = (Some ErrBlockExists, c'))"
proof -
  have push: "AdviseNewBlock caps ft' c' block = (Some ErrBlockExists, c')"
    if "PushBlock caps ft c (SignedHeader block) = (None, c')"
  proof -
    from that have eq: "ParentHash (SignedHeader block) = Head (state c)"
      using PushBlock_reject [of "SignedHeader block" c caps ft] by auto
    from PushBlock_accept(2) [OF eq that]
    have "HasBlock (index c') (BlockHash (SignedHeader block))"
      by (simp add: HasBlock_def AddBlock_def hash_newBlockNode)
    then show ?thesis by (simp add: AdviseNewBlock_def)
  qed
  moreover have "AdviseNewBlock caps ft' c' block = (Some ErrBlockExists, c')"
    if "AdviseNewBlock caps ft c block = (None, c')"
    using AdviseNewBlock_cases [OF that] push by auto
  ultimately show ?thesis by blast
qed

theorem AdviseNewBlock_duplicate_witness:
  "PushBlock smallCaps NoFault genesisChain (SignedHeader secondBlock) = (None, secondChain) \<and>
   AdviseNewBlock smallCaps NoFault secondChain secondBlock = (Some ErrBlockExists, secondChain) \<and>
   AdviseNewBlock smallCaps NoFault genesisChain secondBlock = (None, secondChain)"
proof -
  have push: "PushBlock smallCaps NoFault genesisChain (SignedHeader secondBlock) = (None, secondChain)"
    by (simp add: secondBlock_def PushBlock_second)
  have advise: "AdviseNewBlock smallCaps NoFault genesisChain secondBlock = (None, secondChain)"
    using PushBlock_second
    by (simp add: AdviseNewBlock_def HasBlock_def Let_def Time_Add_def secondBlock_def)
      (simp add: genesisChain_def genesisState_def smallConfig_def genesisBlock_def
        genesisHeader_def secondHeader_def smallCaps_def small_hashes)
  from push advise
    AdviseNewBlock_duplicate [where caps = smallCaps and ft = NoFault and c = genesisChain
      and block = secondBlock and c' = secondChain and ft' = NoFault]
  show ?thesis by simp
qed

subsection \<open>The head invariant\<close>

lemma State_unmarshal_node: "State_unmarshal s b = Inr st \<Longrightarrow> node st = node s"
  by (auto simp add: State_unmarshal_def split: sum.splits list.splits element.splits)

lemma LoadChain_Ok:
  assumes "LoadChain caps opened vf c = Ok chain"
  shows "index chain = newBlockIndex" and "node (state chain) = None"
  using assms
  by (auto simp add: LoadChain_def Let_def loadChainState_def dest: State_unmarshal_node
      split: sum.splits option.splits)

lemma headInvariant_PushBlock:
  assumes "headInvariant c" and "PushBlock caps ft c block = (r, c')"
  shows "headInvariant c'"
proof (cases "ParentHash block = Head (state c)")
  case True
  from PushBlock_accept(1) [OF True assms(2)] show ?thesis
    by (simp add: headInvariant_def hash_newBlockNode)
next
  case False
  with assms PushBlock_reject [of block c caps ft] show ?thesis by simp
qed

lemma ProduceBlock_state: "ProduceBlock caps c = (r, c') \<Longrightarrow> state c' = state c"
  by (auto simp add: ProduceBlock_def split: sum.splits prod.splits)

lemma Chain_Stop_state: "Chain_Stop c = Ok c' \<Longrightarrow> state c' = state c"
  by (auto simp add: Chain_Stop_def split: outcome.splits)

lemma reachable_headInvariant: "reachable caps c \<Longrightarrow> headInvariant c"
proof (induction rule: reachable.induct)
  case (fresh c d)
  show ?case by (simp add: headInvariant_def newChainState_def)
next
  case (loaded opened vf c chain)
  from LoadChain_Ok(2) [OF this] show ?case by (simp add: headInvariant_def)
next
  case (pushed chain ft block r chain')
  then show ?case using headInvariant_PushBlock by blast
next
  case (advised chain ft b r chain')
  from AdviseNewBlock_cases [OF advised(2)] advised(3) show ?case
    using headInvariant_PushBlock by blast
next
  case (produced chain r chain')
  from ProduceBlock_state [OF produced(2)] produced(3) show ?case
    by (simp add: headInvariant_def split: option.splits)
next
  case (stopped chain chain')
  from Chain_Stop_state [OF stopped(2)] stopped(3) show ?case
    by (simp add: headInvariant_def split: option.splits)
next
  case (turned chain)
  then show ?case by (simp add: headInvariant_def split: option.splits)
next
  case (timed chain now wall)
  then show ?case by (simp add: headInvariant_def split: option.splits)
qed

text \<open>
  Claim C7. In every reachable chain the head hash is the hash of the head node, when there
  is one. The chain that \<^verbatim>\<open>NewChain\<close> builds before it pushes the genesis header has no head
  node, height \<open>- 1\<close> and the root hash of the configured genesis header as its head; the
  chain \<^verbatim>\<open>NewChain\<close> returns is that one after a push without error. A \<^verbatim>\<open>PushBlock\<close> without
  error keeps the invariant, and leaves a head node, whose hash is the head.
\<close>

theorem head_invariant:
  "(reachable caps c \<longrightarrow> (\<forall>n. node (state c) = Some n \<longrightarrow> Head (state c) = hash n)) \<and>
   (node (state (newChainState cf d)) = None \<and> Height (state (newChainState cf d)) = - 1 \<and>
    Head (state (newChainState cf d)) = RootHash (SignedHeader (Genesis cf))) \<and>
   (NewChain caps opened ft ft' cf = Inr c \<longrightarrow>
      (\<exists>d. PushBlock caps ft' (newChainState cf d) (SignedHeader (Genesis cf)) = (None, c))) \<and>
   (headInvariant c \<and> PushBlock caps ft c block = (None, c') \<longrightarrow>
      headInvariant c' \<and> node (state c') = Some (newBlockNode block (node (state c))) \<and>
      Head (state c') = hash (newBlockNode block (node (state c))))"
proof -
  have "\<forall>n. node (state c) = Some n \<longrightarrow> Head (state c) = hash n" if "reachable caps c"
    using reachable_headInvariant [OF that] by (simp add: headInvariant_def split: option.splits)
  moreover have "\<exists>d. PushBlock caps ft' (newChainState cf d) (SignedHeader (Genesis cf)) = (None, c)"
    if "NewChain caps opened ft ft' cf = Inr c"
    using that
    by (auto simp add: NewChain_def split: option.splits sum.splits prod.splits)
  moreover have "headInvariant c' \<and> node (state c') = Some (newBlockNode block (node (state c))) \<and>
      Head (state c') = hash (newBlockNode block (node (state c)))"
    if "headInvariant c \<and> PushBlock caps ft c block = (None, c')"
  proof -
    from that have eq: "ParentHash block = Head (state c)"
      using PushBlock_reject [of block c caps ft] by auto
    from that PushBlock_accept(1) [OF eq, of caps ft None c'] headInvariant_PushBlock [of c caps ft block None c']
    show ?thesis by (simp add: hash_newBlockNode)
  qed
  ultimately show ?thesis
    by (simp add: newChainState_def)
qed

theorem head_invariant_witness:
  "reachable smallCaps genesisChain \<and>
   node (state genesisChain) = Some genesisNode \<and> Head (state genesisChain) = hash genesisNode \<and>
   NewChain smallCaps (Inr None) NoFault NoFault smallConfig = Inr genesisChain \<and>
   headInvariant genesisChain \<and>
   PushBlock smallCaps NoFault genesisChain secondHeader = (None, secondChain) \<and>
   headInvariant secondChain \<and> Head (state secondChain) = hashB"
proof -
  have "PushBlock smallCaps NoFault (newChainState smallConfig \<lparr>metaState = None, blockIndexBucket = []\<rparr>)
      genesisHeader = (None, genesisChain)"
    by (simp add: PushBlock_def newChainState_def Let_def
      newBlockNode_def AddBlock_def newBlockIndex_def small_defs store_defs putInt32_def)
  from reachable.pushed [OF reachable.fresh this]
  have r: "reachable smallCaps genesisChain" .
  have h: "headInvariant genesisChain"
    by (simp add: headInvariant_def genesisChain_def genesisState_def genesisNode_def)
  from r h NewChain_small PushBlock_second
    head_invariant [where caps = smallCaps and c = genesisChain and ft = NoFault
      and block = secondHeader and c' = secondChain and opened = "Inr None" and ft' = NoFault
      and cf = smallConfig]
  show ?thesis
    by (simp add: genesisChain_def genesisState_def secondChain_def)
qed

subsection \<open>Loading a chain\<close>

text \<open>
  Claim C2 does not hold of \<^verbatim>\<open>LoadChain\<close>, whose comments say that it rebuilds the memory
  index: the loop fills a local array of nodes and never adds a node to the chain's index,
  nor sets the head node. On the store left by \<^verbatim>\<open>NewChain\<close> for the small configuration, and
  on the store left by one more push, it returns a chain with the stored head hash and
  height and with an empty index, where the chain that wrote the second store has two
  nodes in its index.
\<close>

theorem LoadChain_leaves_index_empty:
  "NewChain smallCaps (Inr None) NoFault NoFault smallConfig = Inr genesisChain \<and>
   PushBlock smallCaps NoFault genesisChain secondHeader = (None, secondChain) \<and>
   dom (index secondChain) = {hashA, hashB} \<and>
   LoadChain smallCaps (Inr (Some (db genesisChain))) None smallConfig =
     Ok (reloadedChain\<lparr>db := genesisStore, state := \<lparr>node = None, Head = hashA, Height = 0\<rparr>\<rparr>) \<and>
   LoadChain smallCaps (Inr (Some (db secondChain))) None smallConfig = Ok reloadedChain \<and>
   dom (index reloadedChain) = {} \<and>
   node (state reloadedChain) = None"
proof -
  have "LoadChain smallCaps (Inr (Some (db genesisChain))) None smallConfig =
     Ok (reloadedChain\<lparr>db := genesisStore, state := \<lparr>node = None, Head = hashA, Height = 0\<rparr>\<rparr>)"
    by (simp add: LoadChain_def genesisChain_def genesisStore_def reloadedChain_def loadChainState_def meta_Get_def
        State_unmarshal_eq cursor_entries_def loadRecord_def smallCaps_def newBlockIndex_def)
  moreover have "LoadChain smallCaps (Inr (Some (db secondChain))) None smallConfig = Ok reloadedChain"
    by (simp add: LoadChain_def secondChain_def secondStore_def reloadedChain_def loadChainState_def meta_Get_def
        State_unmarshal_eq cursor_entries_def loadRecord_def smallCaps_def newBlockIndex_def small_keys
        Let_def hashBytes_eq_iff small_hashes genesisHeader_def secondHeader_def initBlockNode_def newBlockNode_def)
  moreover have "dom (index secondChain) = {hashA, hashB}"
    by (auto simp add: secondChain_def)
  ultimately show ?thesis
    by (simp add: NewChain_small PushBlock_second) (simp add: reloadedChain_def)
qed

lemma loadRecords_nodes:
  "loadRecords caps bi l acc kvs = Inr nodes \<Longrightarrow>
     \<exists>ns. nodes = acc @ ns \<and> length ns = length kvs"
proof (induction kvs arbitrary: l acc)
  case Nil
  then show ?case by simp
next
  case (Cons kv kvs)
  obtain k v where kv: "kv = (k, v)" by (cases kv)
  from Cons.prems kv obtain n where n: "loadRecord caps bi l v = Inr n"
    and rest: "loadRecords caps bi (Some n) (acc @ [n]) kvs = Inr nodes"
    by (auto split: sum.splits)
  from Cons.IH [OF rest] obtain ns where "nodes = (acc @ [n]) @ ns" "length ns = length kvs"
    by blast
  then have "nodes = acc @ (n # ns) \<and> length (n # ns) = length (kv # kvs)" by simp
  then show ?case by blast
qed

lemma loadRecords_append:
  "loadRecords caps bi l acc (xs @ ys) =
     (case loadRecords caps bi l acc xs of
        Inl e \<Rightarrow> Inl e
      | Inr nodes \<Rightarrow> loadRecords caps bi (if xs = [] then l else Some (last nodes)) nodes ys)"
proof (induction xs arbitrary: l acc)
  case Nil
  then show ?case by simp
next
  case (Cons kv xs)
  obtain k v where kv: "kv = (k, v)" by (cases kv)
  show ?case
  proof (cases "loadRecord caps bi l v")
    case (Inl e)
    with kv show ?thesis by simp
  next
    case (Inr n)
    show ?thesis
    proof (cases "loadRecords caps bi (Some n) (acc @ [n]) xs")
      case (Inl e)
      with Inr kv Cons.IH [of "Some n" "acc @ [n]"] show ?thesis by simp
    next
      case nodes: (Inr nodes)
      from loadRecords_nodes [OF nodes] obtain ns
        where ns: "nodes = (acc @ [n]) @ ns" "length ns = length xs" by blast
      then have "xs = [] \<Longrightarrow> last nodes = n" by simp
      with Inr nodes kv Cons.IH [of "Some n" "acc @ [n]"] show ?thesis by auto
    qed
  qed
qed

lemma fork_keys:
  "putInt32 1 @ hashBytes hashB \<le> putInt32 1 @ hashBytes hashC"
  "\<not> putInt32 1 @ hashBytes hashC \<le> putInt32 1 @ hashBytes hashB"
  by (simp_all add: hashB_def hashC_def hashBytes_hashFromBytes putInt32_def)

lemma LoadChain_fallback_always_fails:
  assumes meta: "State_unmarshal (state (loadChainState c s)) (meta_Get s) = Inr st"
    and entries: "cursor_entries (blockIndexBucket s) = kvs @ (k, v) # rest"
    and before: "loadRecords caps newBlockIndex None [] kvs = Inr nodes" and "kvs \<noteq> []"
    and header: "Header_unmarshal caps v = Inr header"
    and parent: "ParentHash header \<noteq> hash (last nodes)"
  shows "LoadChain caps (Inr (Some s)) None c = Err ErrParentNotFound"
proof -
  have "loadRecord caps newBlockIndex (Some (last nodes)) v = Inl ErrParentNotFound"
    using header parent by (simp add: loadRecord_def LookupNode_def newBlockIndex_def)
  then have "loadRecords caps newBlockIndex None [] (kvs @ (k, v) # rest) = Inl ErrParentNotFound"
    using before \<open>kvs \<noteq> []\<close> by (simp add: loadRecords_append)
  then show ?thesis
    using meta entries by (simp add: LoadChain_def Let_def loadChainState_def)
qed

text \<open>
  Claim C3 does not hold of \<^verbatim>\<open>LoadChain\<close> where it has the parent looked up in the partially
  built index. The loop looks the parent up in the chain's index, which \<^verbatim>\<open>LoadChain\<close> creates
  empty and never adds a node to (the defect of claim C2); so every record whose parent is
  not the node just before it fails with \<^verbatim>\<open>ErrParentNotFound\<close>, also when its parent has been
  reconstructed earlier. On the store with a fork the records come in key order; the first
  two are reconstructed as the genesis node and the second node; the third decodes to a
  header whose parent is the genesis node, and the loop body, given an index that holds the
  two nodes, builds its node with that parent. \<^verbatim>\<open>LoadChain\<close> fails with
  \<^verbatim>\<open>ErrParentNotFound\<close>.
\<close>

theorem LoadChain_fallback_misses_parent:
  "cursor_entries (blockIndexBucket forkStore) =
     [(putInt32 0 @ hashBytes hashA, hashBytes hashA),
      (putInt32 1 @ hashBytes hashB, hashBytes hashB),
      (putInt32 1 @ hashBytes hashC, hashBytes hashC)] \<and>
   loadRecords forkCaps newBlockIndex None []
     [(putInt32 0 @ hashBytes hashA, hashBytes hashA),
      (putInt32 1 @ hashBytes hashB, hashBytes hashB)] = Inr [genesisNode, secondNode] \<and>
   Header_unmarshal forkCaps (hashBytes hashC) = Inr siblingHeader \<and>
   ParentHash siblingHeader = hash genesisNode \<and>
   loadRecord forkCaps [hashA \<mapsto> genesisNode, hashB \<mapsto> secondNode] (Some secondNode)
     (hashBytes hashC) = Inr (BlockNode hashC (Some genesisNode) 1 1010) \<and>
   LoadChain forkCaps (Inr (Some forkStore)) None smallConfig = Err ErrParentNotFound"
proof -
  have entries: "cursor_entries (blockIndexBucket forkStore) =
     [(putInt32 0 @ hashBytes hashA, hashBytes hashA),
      (putInt32 1 @ hashBytes hashB, hashBytes hashB),
      (putInt32 1 @ hashBytes hashC, hashBytes hashC)]"
    by (simp add: cursor_entries_def forkStore_def small_keys fork_keys)
  have decode: "Header_unmarshal forkCaps (hashBytes hashA) = Inr genesisHeader"
    "Header_unmarshal forkCaps (hashBytes hashB) = Inr secondHeader"
    "Header_unmarshal forkCaps (hashBytes hashC) = Inr siblingHeader"
    by (simp_all add: forkCaps_def smallCaps_def hashBytes_eq_iff small_hashes fork_hashes)
  have verify: "Header_VerifyAsGenesis forkCaps h = None" "Header_Verify forkCaps h = None" for h
    by (simp_all add: forkCaps_def smallCaps_def)
  have nodes: "loadRecords forkCaps newBlockIndex None []
     [(putInt32 0 @ hashBytes hashA, hashBytes hashA),
      (putInt32 1 @ hashBytes hashB, hashBytes hashB)] = Inr [genesisNode, secondNode]"
    by (simp add: loadRecord_def decode verify initBlockNode_def newBlockNode_def
        genesisHeader_def secondHeader_def genesisNode_def secondNode_def)
  have parent: "ParentHash siblingHeader = hash genesisNode"
    by (simp add: siblingHeader_def genesisNode_def)
  have built: "loadRecord forkCaps [hashA \<mapsto> genesisNode, hashB \<mapsto> secondNode] (Some secondNode)
     (hashBytes hashC) = Inr (BlockNode hashC (Some genesisNode) 1 1010)"
    by (simp add: loadRecord_def decode LookupNode_def initBlockNode_def newBlockNode_def
        siblingHeader_def secondNode_def genesisNode_def small_hashes)
  have meta: "State_unmarshal (state (loadChainState smallConfig forkStore)) (meta_Get forkStore) =
      Inr (state (loadChainState smallConfig forkStore)\<lparr>Head := hashB, Height := 1\<rparr>)"
    by (simp add: meta_Get_def forkStore_def State_unmarshal_eq)
  have other: "ParentHash siblingHeader \<noteq> hash (last [genesisNode, secondNode])"
    by (simp add: siblingHeader_def secondNode_def small_hashes)
  have split: "cursor_entries (blockIndexBucket forkStore) =
     [(putInt32 0 @ hashBytes hashA, hashBytes hashA),
      (putInt32 1 @ hashBytes hashB, hashBytes hashB)] @
      (putInt32 1 @ hashBytes hashC, hashBytes hashC) # []"
    by (simp add: entries)
  have load: "LoadChain forkCaps (Inr (Some forkStore)) None smallConfig = Err ErrParentNotFound"
    by (rule LoadChain_fallback_always_fails [OF meta split nodes _ decode(3) other]) simp
  from entries nodes decode(3) parent built load show ?thesis
    by simp
qed

subsection \<open>The production slot\<close>

lemma sint_height_succ:
  fixes h :: "32 word"
  assumes "sint h < 2 ^ 31 - 1"
  shows "sint (h + 1) = sint h + 1"
proof -
  have "- (2 ^ 31) \<le> sint h" using sint_ge [of h] by simp
  with assms show ?thesis
    by (simp add: sint_word_ariths signed_take_bit_int_eq_self)
qed

lemma sint_slot_offset:
  fixes h :: "32 word" and p :: "64 word"
  assumes "sint h < 2 ^ 31 - 1"
    and "- (2 ^ 63) \<le> (sint h + 1) * sint p" and "(sint h + 1) * sint p < 2 ^ 63"
  shows "sint (scast (h + 1) * p) = (sint h + 1) * sint p"
proof -
  have "sint (scast (h + 1) :: 64 word) = sint (h + 1)"
    by (rule sint_up_scast) (simp add: is_up)
  then have "sint (scast (h + 1) :: 64 word) = sint h + 1"
    using sint_height_succ [OF assms(1)] by simp
  with assms(2,3) show ?thesis
    by (simp add: sint_word_ariths signed_take_bit_int_eq_self)
qed

lemma PushBlock_not_timestamp:
  "fst (PushBlock caps ft c block) \<noteq> Some ErrBlockTimestampOutOfPeriod"
proof (cases "ParentHash block = Head (state c)")
  case True
  obtain r c' where p: "PushBlock caps ft c block = (r, c')" by (cases "PushBlock caps ft c block")
  from PushBlock_accept(7) [OF True p, of ErrBlockTimestampOutOfPeriod] p show ?thesis by auto
next
  case False
  then show ?thesis by (simp add: PushBlock_reject)
qed

lemma wrapped_offsets:
  "sint (scast (2147483647 + 1 :: 32 word) * (10 :: 64 word)) = - 21474836480"
  "sint (scast (1 + 1 :: 32 word) * (4611686018427387904 :: 64 word)) = - 9223372036854775808"
  "sint (scast (0 + 1 :: 32 word) * (0 :: 64 word)) = 0"
  by simp_all

lemma NewChain_period:
  "NewChain smallCaps (Inr None) NoFault NoFault \<lparr>DataDir = ''data'', Genesis = genesisBlock, Period = p\<rparr> =
     Inr (genesisChain\<lparr>cfg := \<lparr>DataDir = ''data'', Genesis = genesisBlock, Period = p\<rparr>,
       rt := newRuntime \<lparr>DataDir = ''data'', Genesis = genesisBlock, Period = p\<rparr>\<rparr>)"
  by (simp add: NewChain_def createBuckets_def PushBlock_def newChainState_def Let_def
      newBlockNode_def AddBlock_def newBlockIndex_def small_defs store_defs putInt32_def)

lemma PushBlock_second_any:
  "PushBlock smallCaps NoFault (genesisChain\<lparr>cfg := x, rt := y\<rparr>) secondHeader =
     (None, secondChain\<lparr>cfg := x, rt := y\<rparr>)"
  by (simp add: PushBlock_def Let_def newBlockNode_def AddBlock_def small_defs small_defs2
      store_defs putInt32_def small_hashes hashBytes_eq_iff)

lemma LoadChain_maxHeight:
  "LoadChain smallCaps (Inr (Some maxHeightStore)) None smallConfig = Ok maxHeightChain"
  by (simp add: LoadChain_def Let_def maxHeightStore_def maxHeightChain_def genesisStore_def
      loadChainState_def meta_Get_def State_unmarshal_eq cursor_entries_def loadRecord_def
      smallCaps_def newBlockIndex_def)

text \<open>
  Claim C5, as stated, fails: nothing in the code keeps the period positive or the slot's
  start within the machine integers, and a block stamped exactly \<open>T0 + (h + 1) * P\<close> is
  then rejected with \<^verbatim>\<open>ErrBlockTimestampOutOfPeriod\<close>. Three cases, each on a chain the code
  returns and with a block whose hash is not indexed: the chain \<^verbatim>\<open>NewChain\<close> returns for period
  0, where the slot is empty; the chain \<^verbatim>\<open>LoadChain\<close> returns for a state record with the
  largest 32-bit height, where \<open>h + 1\<close> wraps around; the chain after \<^verbatim>\<open>NewChain\<close> and one
  push with a period of \<open>2 ^ 62\<close>, where \<open>(h + 1) * P\<close> wraps around in 64 bits.
\<close>

theorem AdviseNewBlock_slot_start_rejected:
  "NewChain smallCaps (Inr None) NoFault NoFault zeroPeriodConfig = Inr zeroPeriodChain \<and>
   Timestamp (SignedHeader (Genesis (cfg zeroPeriodChain))) = 1000 \<and>
   sint (Config.Period (cfg zeroPeriodChain)) = 0 \<and>
   sint (Height (state zeroPeriodChain)) = 0 \<and>
   \<not> HasBlock (index zeroPeriodChain) (BlockHash (SignedHeader zeroPeriodBlock)) \<and>
   Timestamp (SignedHeader zeroPeriodBlock) = 1000 + (0 + 1) * 0 \<and>
   AdviseNewBlock smallCaps NoFault zeroPeriodChain zeroPeriodBlock =
     (Some ErrBlockTimestampOutOfPeriod, zeroPeriodChain) \<and>
   LoadChain smallCaps (Inr (Some maxHeightStore)) None smallConfig = Ok maxHeightChain \<and>
   Timestamp (SignedHeader (Genesis (cfg maxHeightChain))) = 1000 \<and>
   sint (Config.Period (cfg maxHeightChain)) = 10 \<and>
   sint (Height (state maxHeightChain)) = 2147483647 \<and>
   \<not> HasBlock (index maxHeightChain) (BlockHash (SignedHeader maxHeightBlock)) \<and>
   Timestamp (SignedHeader maxHeightBlock) = 1000 + (2147483647 + 1) * 10 \<and>
   AdviseNewBlock smallCaps NoFault maxHeightChain maxHeightBlock =
     (Some ErrBlockTimestampOutOfPeriod, maxHeightChain) \<and>
   NewChain smallCaps (Inr None) NoFault NoFault longPeriodConfig =
     Inr (genesisChain\<lparr>cfg := longPeriodConfig, rt := newRuntime longPeriodConfig\<rparr>) \<and>
   PushBlock smallCaps NoFault (genesisChain\<lparr>cfg := longPeriodConfig, rt := newRuntime longPeriodConfig\<rparr>)
     secondHeader = (None, longPeriodChain) \<and>
   Timestamp (SignedHeader (Genesis (cfg longPeriodChain))) = 1000 \<and>
   sint (Config.Period (cfg longPeriodChain)) = 4611686018427387904 \<and>
   sint (Height (state longPeriodChain)) = 1 \<and>
   \<not> HasBlock (index longPeriodChain) (BlockHash (SignedHeader longPeriodBlock)) \<and>
   Timestamp (SignedHeader longPeriodBlock) = 1000 + (1 + 1) * 4611686018427387904 \<and>
   AdviseNewBlock smallCaps NoFault longPeriodChain longPeriodBlock =
     (Some ErrBlockTimestampOutOfPeriod, longPeriodChain)"
proof -
  have zero: "NewChain smallCaps (Inr None) NoFault NoFault zeroPeriodConfig = Inr zeroPeriodChain"
    by (simp add: zeroPeriodConfig_def zeroPeriodChain_def NewChain_period)
  have zero_facts: "Timestamp (SignedHeader (Genesis (cfg zeroPeriodChain))) = 1000"
    "sint (Config.Period (cfg zeroPeriodChain)) = 0"
    "sint (Height (state zeroPeriodChain)) = 0"
    "\<not> HasBlock (index zeroPeriodChain) (BlockHash (SignedHeader zeroPeriodBlock))"
    "Timestamp (SignedHeader zeroPeriodBlock) = 1000 + (0 + 1) * 0"
    by (simp_all add: zeroPeriodChain_def zeroPeriodConfig_def zeroPeriodBlock_def genesisChain_def
        genesisState_def genesisBlock_def genesisHeader_def secondHeader_def HasBlock_def small_hashes)
  have zero_advise: "AdviseNewBlock smallCaps NoFault zeroPeriodChain zeroPeriodBlock =
     (Some ErrBlockTimestampOutOfPeriod, zeroPeriodChain)"
    using zero_facts(4)
    by (simp add: AdviseNewBlock_def Let_def Time_Add_def)
      (simp add: zeroPeriodChain_def zeroPeriodConfig_def zeroPeriodBlock_def genesisChain_def
        genesisState_def genesisBlock_def genesisHeader_def secondHeader_def)
  have max_facts: "Timestamp (SignedHeader (Genesis (cfg maxHeightChain))) = 1000"
    "sint (Config.Period (cfg maxHeightChain)) = 10"
    "sint (Height (state maxHeightChain)) = 2147483647"
    "\<not> HasBlock (index maxHeightChain) (BlockHash (SignedHeader maxHeightBlock))"
    "Timestamp (SignedHeader maxHeightBlock) = 1000 + (2147483647 + 1) * 10"
    by (simp_all add: maxHeightChain_def maxHeightBlock_def smallConfig_def
        genesisBlock_def genesisHeader_def secondHeader_def HasBlock_def)
  have max_advise: "AdviseNewBlock smallCaps NoFault maxHeightChain maxHeightBlock =
     (Some ErrBlockTimestampOutOfPeriod, maxHeightChain)"
    using max_facts(4) wrapped_offsets(1)
    by (simp add: AdviseNewBlock_def Let_def Time_Add_def)
      (simp add: maxHeightChain_def maxHeightBlock_def smallConfig_def
        genesisBlock_def genesisHeader_def secondHeader_def)
  have long_new: "NewChain smallCaps (Inr None) NoFault NoFault longPeriodConfig =
     Inr (genesisChain\<lparr>cfg := longPeriodConfig, rt := newRuntime longPeriodConfig\<rparr>)"
    by (simp add: longPeriodConfig_def NewChain_period)
  have long_push: "PushBlock smallCaps NoFault
     (genesisChain\<lparr>cfg := longPeriodConfig, rt := newRuntime longPeriodConfig\<rparr>)
     secondHeader = (None, longPeriodChain)"
    by (simp add: longPeriodChain_def PushBlock_second_any)
  have long_facts: "Timestamp (SignedHeader (Genesis (cfg longPeriodChain))) = 1000"
    "sint (Config.Period (cfg longPeriodChain)) = 4611686018427387904"
    "sint (Height (state longPeriodChain)) = 1"
    "\<not> HasBlock (index longPeriodChain) (BlockHash (SignedHeader longPeriodBlock))"
    "Timestamp (SignedHeader longPeriodBlock) = 1000 + (1 + 1) * 4611686018427387904"
    by (simp_all add: longPeriodChain_def longPeriodConfig_def longPeriodBlock_def secondChain_def
        genesisBlock_def genesisHeader_def HasBlock_def fork_hashes)
  have long_advise: "AdviseNewBlock smallCaps NoFault longPeriodChain longPeriodBlock =
     (Some ErrBlockTimestampOutOfPeriod, longPeriodChain)"
    using long_facts(4) wrapped_offsets(2)
    by (simp add: AdviseNewBlock_def Let_def Time_Add_def)
      (simp add: longPeriodChain_def longPeriodConfig_def longPeriodBlock_def secondChain_def
        genesisBlock_def genesisHeader_def)
  from zero zero_facts zero_advise LoadChain_maxHeight max_facts max_advise long_new long_push
    long_facts long_advise
  show ?thesis by (intro conjI)
qed

text \<open>
  Claim C5, amended. Let \<open>T0\<close> be the genesis time, \<open>P\<close> the period and \<open>h\<close> the current
  height, let the block's hash not be indexed yet, and let the slot's start
  \<open>T0 + (h + 1) * P\<close> be computed without overflow (the height is not the largest 32-bit
  one, and \<open>(h + 1) * P\<close> fits a signed 64-bit duration). Then \<^verbatim>\<open>AdviseNewBlock\<close> returns
  \<^verbatim>\<open>ErrBlockTimestampOutOfPeriod\<close> exactly for the timestamps outside the half-open interval
  from \<open>T0 + (h + 1) * P\<close> to \<open>T0 + (h + 2) * P\<close>. With a positive period, a block stamped
  exactly \<open>T0 + (h + 1) * P\<close> passes the check and goes on to verification and
  \<^verbatim>\<open>PushBlock\<close>; one stamped at or after \<open>T0 + (h + 2) * P\<close> is rejected, and so is one
  stamped before \<open>T0 + (h + 1) * P\<close>.
\<close>

theorem AdviseNewBlock_slot:
  assumes fresh: "\<not> HasBlock (index c) (BlockHash (SignedHeader block))"
    and height: "sint (Height (state c)) < 2 ^ 31 - 1"
    and lower: "- (2 ^ 63) \<le> (sint (Height (state c)) + 1) * sint (Config.Period (cfg c))"
    and upper: "(sint (Height (state c)) + 1) * sint (Config.Period (cfg c)) < 2 ^ 63"
    and T0: "T0 = Timestamp (SignedHeader (Genesis (cfg c)))"
    and P: "P = sint (Config.Period (cfg c))"
    and h: "h = sint (Height (state c))"
    and ptime: "ptime = Timestamp (SignedHeader block)"
  shows "(fst (AdviseNewBlock caps ft c block) = Some ErrBlockTimestampOutOfPeriod \<longleftrightarrow>
            \<not> (T0 + (h + 1) * P \<le> ptime \<and> ptime < T0 + (h + 2) * P)) \<and>
         (0 < P \<and> ptime = T0 + (h + 1) * P \<longrightarrow>
            AdviseNewBlock caps ft c block =
              (case Block_Verify caps block of
                 Some m \<Rightarrow> (Some (ValidationError m), c)
               | None \<Rightarrow> PushBlock caps ft c (SignedHeader block))) \<and>
         (T0 + (h + 2) * P \<le> ptime \<longrightarrow>
            AdviseNewBlock caps ft c block = (Some ErrBlockTimestampOutOfPeriod, c)) \<and>
         (ptime < T0 + (h + 1) * P \<longrightarrow>
            AdviseNewBlock caps ft c block = (Some ErrBlockTimestampOutOfPeriod, c))"
proof -
  let ?start = "Time_Add (Timestamp (SignedHeader (Genesis (cfg c))))
                      (scast (Height (state c) + 1) * Config.Period (cfg c))"
  have start: "?start = T0 + (h + 1) * P"
    by (simp add: Time_Add_def sint_slot_offset [OF height lower upper] T0 P h)
  have "end": "Time_Add ?start (Config.Period (cfg c)) = T0 + (h + 2) * P"
    by (simp add: start) (simp add: Time_Add_def P algebra_simps)
  have inside: "AdviseNewBlock caps ft c block =
              (case Block_Verify caps block of
                 Some m \<Rightarrow> (Some (ValidationError m), c)
               | None \<Rightarrow> PushBlock caps ft c (SignedHeader block))"
    if "T0 + (h + 1) * P \<le> ptime" and "ptime < T0 + (h + 2) * P"
    using that fresh start "end" by (simp add: AdviseNewBlock_def Let_def ptime)
  have outside: "AdviseNewBlock caps ft c block = (Some ErrBlockTimestampOutOfPeriod, c)"
    if "\<not> (T0 + (h + 1) * P \<le> ptime \<and> ptime < T0 + (h + 2) * P)"
    using that fresh start "end" by (auto simp add: AdviseNewBlock_def Let_def ptime)
  have iff: "fst (AdviseNewBlock caps ft c block) = Some ErrBlockTimestampOutOfPeriod \<longleftrightarrow>
            \<not> (T0 + (h + 1) * P \<le> ptime \<and> ptime < T0 + (h + 2) * P)"
  proof (cases "T0 + (h + 1) * P \<le> ptime \<and> ptime < T0 + (h + 2) * P")
    case True
    then show ?thesis
      using inside PushBlock_not_timestamp [of caps ft c "SignedHeader block"]
      by (auto split: option.splits)
  next
    case False
    then show ?thesis using outside by simp
  qed
  have first: "T0 + (h + 1) * P < T0 + (h + 2) * P" if "0 < P"
    using that by (simp add: algebra_simps)
  from iff inside outside first show ?thesis
    by auto
qed

theorem AdviseNewBlock_slot_witness:
  "\<not> HasBlock (index genesisChain) (BlockHash (SignedHeader secondBlock)) \<and>
   Timestamp (SignedHeader (Genesis (cfg genesisChain))) = 1000 \<and>
   sint (Config.Period (cfg genesisChain)) = 10 \<and> sint (Height (state genesisChain)) = 0 \<and>
   Timestamp (SignedHeader secondBlock) = 1000 + (0 + 1) * 10 \<and>
   AdviseNewBlock smallCaps NoFault genesisChain secondBlock = (None, secondChain) \<and>
   Timestamp (SignedHeader lateBlock) = 1000 + (0 + 2) * 10 \<and>
   AdviseNewBlock smallCaps NoFault genesisChain lateBlock =
     (Some ErrBlockTimestampOutOfPeriod, genesisChain) \<and>
   Timestamp (SignedHeader earlyBlock) = 1000 + (0 + 1) * 10 - 1 \<and>
   AdviseNewBlock smallCaps NoFault genesisChain earlyBlock =
     (Some ErrBlockTimestampOutOfPeriod, genesisChain)"
proof -
  have fresh: "\<not> HasBlock (index genesisChain) (BlockHash (SignedHeader secondBlock))"
    "\<not> HasBlock (index genesisChain) (BlockHash (SignedHeader lateBlock))"
    "\<not> HasBlock (index genesisChain) (BlockHash (SignedHeader earlyBlock))"
    by (simp_all add: HasBlock_def genesisChain_def secondBlock_def lateBlock_def earlyBlock_def
        secondHeader_def small_hashes)
  have T0: "(1000 :: int) = Timestamp (SignedHeader (Genesis (cfg genesisChain)))"
    by (simp add: genesisChain_def smallConfig_def genesisBlock_def genesisHeader_def)
  have P: "(10 :: int) = sint (Config.Period (cfg genesisChain))"
    by (simp add: genesisChain_def smallConfig_def)
  have h: "(0 :: int) = sint (Height (state genesisChain))"
    by (simp add: genesisChain_def genesisState_def)
  have stamps: "(1010 :: int) = Timestamp (SignedHeader secondBlock)"
    "(1020 :: int) = Timestamp (SignedHeader lateBlock)"
    "(1009 :: int) = Timestamp (SignedHeader earlyBlock)"
    by (simp_all add: secondBlock_def lateBlock_def earlyBlock_def secondHeader_def)
  have range: "sint (Height (state genesisChain)) < 2 ^ 31 - 1"
    "- (2 ^ 63) \<le> (sint (Height (state genesisChain)) + 1) * sint (Config.Period (cfg genesisChain))"
    "(sint (Height (state genesisChain)) + 1) * sint (Config.Period (cfg genesisChain)) < 2 ^ 63"
    by (simp_all add: h [symmetric] P [symmetric])
  have verify: "Block_Verify smallCaps secondBlock = None"
    by (simp add: smallCaps_def)
  have push: "PushBlock smallCaps NoFault genesisChain (SignedHeader secondBlock) = (None, secondChain)"
    by (simp add: secondBlock_def PushBlock_second)
  from AdviseNewBlock_slot [OF fresh(1) range T0 P h stamps(1), of smallCaps NoFault]
  have "AdviseNewBlock smallCaps NoFault genesisChain secondBlock = (None, secondChain)"
    by (simp add: verify push)
  moreover from AdviseNewBlock_slot [OF fresh(2) range T0 P h stamps(2), of smallCaps NoFault]
  have "AdviseNewBlock smallCaps NoFault genesisChain lateBlock =
     (Some ErrBlockTimestampOutOfPeriod, genesisChain)"
    by simp
  moreover from AdviseNewBlock_slot [OF fresh(3) range T0 P h stamps(3), of smallCaps NoFault]
  have "AdviseNewBlock smallCaps NoFault genesisChain earlyBlock =
     (Some ErrBlockTimestampOutOfPeriod, genesisChain)"
    by simp
  ultimately show ?thesis
    using fresh(1) T0 P h stamps by simp
qed

subsection \<open>Stopping\<close>

text \<open>
  Claim C9, as stated, fails: \<^verbatim>\<open>Stop\<close> closes the stop channel and nothing guards the close.
  On the chain of the small configuration the first \<^verbatim>\<open>Stop\<close> returns and the second panics.
\<close>

theorem Stop_twice_panics:
  "stopCh (rt genesisChain) = Open \<and>
   Chain_Stop genesisChain = Ok (genesisChain\<lparr>rt := (rt genesisChain)\<lparr>stopCh := Closed\<rparr>\<rparr>) \<and>
   Chain_Stop (genesisChain\<lparr>rt := (rt genesisChain)\<lparr>stopCh := Closed\<rparr>\<rparr>) = Panic CloseOfClosedChannel"
  by (simp add: Chain_Stop_def Runtime_Stop_def genesisChain_def newRuntime_def)

text \<open>
  Claim C9, amended. \<^verbatim>\<open>Stop\<close> is safe to call exactly once: on a chain whose stop channel is
  open it closes the channel and returns; on a chain whose stop channel is closed it panics
  with a close of a closed channel; so every \<^verbatim>\<open>Stop\<close> after one that has returned panics.
\<close>

theorem Stop_once:
  "(stopCh (rt c) = Open \<longrightarrow>
      Chain_Stop c = Ok (c\<lparr>rt := (rt c)\<lparr>stopCh := Closed\<rparr>\<rparr>) \<and>
      Runtime_Stop (rt c) = Ok ((rt c)\<lparr>stopCh := Closed\<rparr>)) \<and>
   (stopCh (rt c) = Closed \<longrightarrow>
      Chain_Stop c = Panic CloseOfClosedChannel \<and> Runtime_Stop (rt c) = Panic CloseOfClosedChannel) \<and>
   (Chain_Stop c = Ok c' \<longrightarrow> Chain_Stop c' = Panic CloseOfClosedChannel)"
  by (cases "stopCh (rt c)") (auto simp add: Chain_Stop_def Runtime_Stop_def)

theorem Stop_once_witness:
  "stopCh (rt genesisChain) = Open \<and>
   Chain_Stop genesisChain = Ok (genesisChain\<lparr>rt := (rt genesisChain)\<lparr>stopCh := Closed\<rparr>\<rparr>) \<and>
   stopCh (rt (genesisChain\<lparr>rt := (rt genesisChain)\<lparr>stopCh := Closed\<rparr>\<rparr>)) = Closed \<and>
   Chain_Stop (genesisChain\<lparr>rt := (rt genesisChain)\<lparr>stopCh := Closed\<rparr>\<rparr>) = Panic CloseOfClosedChannel"
  using Stop_once [of genesisChain "genesisChain\<lparr>rt := (rt genesisChain)\<lparr>stopCh := Closed\<rparr>\<rparr>"]
    Stop_once [of "genesisChain\<lparr>rt := (rt genesisChain)\<lparr>stopCh := Closed\<rparr>\<rparr>"]
  by (simp add: genesisChain_def newRuntime_def)

subsection \<open>The producing loop\<close>

text \<open>
  \<^verbatim>\<open>IsMyTurn\<close> is a stub in this source and answers no for every chain, so the loop as it
  stands never enters a turn.
\<close>

lemma IsMyTurn_never: "\<not> IsMyTurn c"
  by (simp add: IsMyTurn_def)










end
